theory Spec2Isabelle
  imports Main "HOL-Library.Sublist" "HOL-Library.Multiset" "HOL-Library.Word"
begin

unbundle bit_operations_syntax

section \<open>Go strings\<close>

text \<open>
  A Go string is a byte sequence; it is modelled as a \<^typ>\<open>string\<close>, one \<^typ>\<open>char\<close> per byte.
  The functions of package \<open>strings\<close> that the sources call are modelled on bytes:
  \<open>ToLower\<close> maps the letters A to Z and leaves every other byte alone, and \<open>TrimSpace\<close>
  strips the six ASCII white space bytes. Both agree with Go on ASCII text; Go also folds and
  strips code points beyond ASCII, which this model leaves as they are.
\<close>

definition upperLetters :: string where
  "upperLetters = ''ABCDEFGHIJKLMNOPQRSTUVWXYZ''"

definition lowerLetters :: string where
  "lowerLetters = ''abcdefghijklmnopqrstuvwxyz''"

definition lowerByte :: "char \<Rightarrow> char" where
  "lowerByte c = (case map_of (zip upperLetters lowerLetters) c of Some d \<Rightarrow> d | None \<Rightarrow> c)"

definition ToLower :: "string \<Rightarrow> string" where
  "ToLower s = map lowerByte s"

definition isSpace :: "char \<Rightarrow> bool" where
  "isSpace c = (c \<in> set [CHR 0x09, CHR 0x0A, CHR 0x0B, CHR 0x0C, CHR 0x0D, CHR '' ''])"

definition TrimSpace :: "string \<Rightarrow> string" where
  "TrimSpace s = rev (dropWhile isSpace (rev (dropWhile isSpace s)))"

text \<open>\<open>strings.Contains(s, substr)\<close>: \<open>substr\<close> occurs in \<open>s\<close> as a contiguous run of bytes.\<close>

fun Contains :: "string \<Rightarrow> string \<Rightarrow> bool" where
  "Contains [] substr = (substr = [])"
| "Contains (c # cs) substr = (prefix substr (c # cs) \<or> Contains cs substr)"

text \<open>
  \<open>strings.FieldsFunc(s, f)\<close> cuts \<open>s\<close> at every byte that satisfies \<open>f\<close> and returns the
  non-empty pieces. The second argument of \<open>fieldsFrom\<close> is the piece being read.
  The separator test of both tokenizers is \<open>r < 'a' || r > 'z'\<close>; every byte of a code point
  beyond ASCII passes it, as the code point itself does, so cutting bytes cuts where Go cuts
  runes.
\<close>

fun fieldsFrom :: "(char \<Rightarrow> bool) \<Rightarrow> string \<Rightarrow> string \<Rightarrow> string list" where
  "fieldsFrom f cur [] = (if cur = [] then [] else [cur])"
| "fieldsFrom f cur (c # cs) =
     (if f c then (if cur = [] then fieldsFrom f [] cs else cur # fieldsFrom f [] cs)
      else fieldsFrom f (cur @ [c]) cs)"

definition FieldsFunc :: "string \<Rightarrow> (char \<Rightarrow> bool) \<Rightarrow> string list" where
  "FieldsFunc s f = fieldsFrom f [] s"

text \<open>
  \<open>strings.Split(s, sep)\<close> for a non-empty separator: the pieces between the occurrences of
  \<open>sep\<close>, found from the left without overlap. (With an empty separator Go splits after
  every code point; the sources only split at \<open>"\n## "\<close> and \<open>"\n\n"\<close>, and the model returns
  the whole string there.)
\<close>

function splitFrom :: "string \<Rightarrow> string \<Rightarrow> string \<Rightarrow> string list" where
  "splitFrom sep cur [] = [cur]"
| "splitFrom sep cur (c # cs) =
     (if sep \<noteq> [] \<and> prefix sep (c # cs)
      then cur # splitFrom sep [] (drop (length sep - 1) cs)
      else splitFrom sep (cur @ [c]) cs)"
  by pat_completeness auto
termination
  by (relation "measure (\<lambda>(sep, cur, s). length s)") auto

definition Split :: "string \<Rightarrow> string \<Rightarrow> string list" where
  "Split s sep = splitFrom sep [] s"

fun Join :: "string list \<Rightarrow> string \<Rightarrow> string" where
  "Join [] sep = []"
| "Join [x] sep = x"
| "Join (x # y # ys) sep = x @ sep @ Join (y # ys) sep"

section \<open>Memory store: scoring (pkg/agent/memory.go)\<close>

definition notLowerLetter :: "char \<Rightarrow> bool" where
  "notLowerLetter r = (r \<notin> set lowerLetters)"

text \<open>\<open>tokenizeForMatch\<close> of memory.go: the caller passes the lowercased query.\<close>

definition tokenizeForMatch :: "string \<Rightarrow> string list" where
  "tokenizeForMatch s = filter (\<lambda>w. length w \<ge> 2) (FieldsFunc s notLowerLetter)"

text \<open>The loop \<open>for _, w := range queryWords\<close> of \<open>scoreChunk\<close> and \<open>scoreTurn\<close>.\<close>

fun scoreWords :: "string \<Rightarrow> string list \<Rightarrow> int \<Rightarrow> int" where
  "scoreWords chunkLower [] score = score"
| "scoreWords chunkLower (w # ws) score =
     scoreWords chunkLower ws (if Contains chunkLower w then score + 1 else score)"

definition scoreChunk :: "string \<Rightarrow> string \<Rightarrow> string list \<Rightarrow> int" where
  "scoreChunk chunkText queryLower queryWords =
     (let chunkLower = ToLower chunkText;
          score = (if Contains chunkLower queryLower then 0 + 10 else 0)
      in scoreWords chunkLower queryWords score)"

section \<open>Session selection: scoring (package session)\<close>

text \<open>\<open>tokenizeForMatch\<close> of package session lowercases its argument itself.\<close>

definition session_tokenizeForMatch :: "string \<Rightarrow> string list" where
  "session_tokenizeForMatch s =
     filter (\<lambda>w. length w \<ge> 2) (FieldsFunc (ToLower s) notLowerLetter)"

definition scoreTurn :: "string \<Rightarrow> string \<Rightarrow> string list \<Rightarrow> int" where
  "scoreTurn txt queryLower queryWords =
     (let chunkLower = ToLower txt;
          score = (if queryLower \<noteq> [] \<and> Contains chunkLower queryLower then 0 + 10 else 0)
      in scoreWords chunkLower queryWords score)"

text \<open>
  The score as the specification words it: 10 for the whole query, and 1 for each
  \<^emph>\<open>distinct\<close> token of the query that occurs in the chunk.
\<close>

definition spec_score :: "string \<Rightarrow> string \<Rightarrow> int" where
  "spec_score chunkText query =
     (let q = ToLower (TrimSpace query); chunkLower = ToLower chunkText
      in (if Contains chunkLower q then 10 else 0)
         + int (length (filter (Contains chunkLower) (remdups (tokenizeForMatch q)))))"


section \<open>Sorting by score (memory.go lines 231 to 237, session lines 118 to 124)\<close>

text \<open>
  \<open>Retrieve\<close> and \<open>SelectRelevantTurns\<close> sort in place with the same pair of loops:
  \<^verbatim>\<open>for i := 0; i < len(a); i++ { for j := i + 1; j < len(a); j++ {
     if a[j].score > a[i].score { a[i], a[j] = a[j], a[i] } } }\<close>
  The slice is a list, the score a function of the element.
\<close>

definition swapAt :: "nat \<Rightarrow> nat \<Rightarrow> 'a list \<Rightarrow> 'a list" where
  "swapAt i j xs = xs[i := xs ! j, j := xs ! i]"

lemma length_swapAt: "length (swapAt i j xs) = length xs"
  by (simp add: swapAt_def)

function sortInner :: "('a \<Rightarrow> int) \<Rightarrow> nat \<Rightarrow> nat \<Rightarrow> 'a list \<Rightarrow> 'a list" where
  "sortInner sc i j xs =
     (if j < length xs
      then sortInner sc i (Suc j) (if sc (xs ! j) > sc (xs ! i) then swapAt i j xs else xs)
      else xs)"
  by pat_completeness auto
termination
  by (relation "measure (\<lambda>(sc, i, j, xs). length xs - j)") (auto simp: length_swapAt)

declare sortInner.simps [simp del]

lemma length_sortInner: "length (sortInner sc i j xs) = length xs"
proof (induction sc i j xs rule: sortInner.induct)
  case (1 sc i j xs)
  then show ?case by (subst sortInner.simps) (simp add: length_swapAt)
qed

function sortOuter :: "('a \<Rightarrow> int) \<Rightarrow> nat \<Rightarrow> 'a list \<Rightarrow> 'a list" where
  "sortOuter sc i xs =
     (if i < length xs then sortOuter sc (Suc i) (sortInner sc i (Suc i) xs) else xs)"
  by pat_completeness auto
termination
  by (relation "measure (\<lambda>(sc, i, xs). length xs - i)") (auto simp: length_sortInner)

declare sortOuter.simps [simp del]

definition sortByScoreDesc :: "('a \<Rightarrow> int) \<Rightarrow> 'a list \<Rightarrow> 'a list" where
  "sortByScoreDesc sc xs = sortOuter sc 0 xs"

section \<open>Memory store: retrieval (pkg/agent/memory.go)\<close>

text \<open>
  A file of the workspace is \<open>None\<close> when reading it fails (it does not exist), and
  \<open>Some\<close> of its bytes otherwise.
\<close>

type_synonym diskfile = "string option"

definition ReadLongTerm :: "diskfile \<Rightarrow> string" where
  "ReadLongTerm memoryFile = (case memoryFile of Some d \<Rightarrow> d | None \<Rightarrow> [])"

record memoryChunk =
  chunk_text :: string
  chunk_score :: int

definition headingSep :: string where
  "headingSep = [CHR 0x0A] @ ''## ''"

definition paragraphSep :: string where
  "paragraphSep = [CHR 0x0A, CHR 0x0A]"

definition chunkSep :: string where
  "chunkSep = [CHR 0x0A, CHR 0x0A] @ ''---'' @ [CHR 0x0A, CHR 0x0A]"

text \<open>The inner loop of \<open>splitMemoryChunks\<close>: the trimmed non-empty paragraphs of a block.\<close>

definition blockParagraphs :: "string \<Rightarrow> string list" where
  "blockParagraphs block = filter (\<lambda>para. para \<noteq> []) (map TrimSpace (Split block paragraphSep))"

definition splitMemoryChunks :: "string \<Rightarrow> string list" where
  "splitMemoryChunks content =
     (let chunks = concat (map (\<lambda>block. let block = TrimSpace block in
                                  if block = [] then [] else blockParagraphs block)
                            (Split content headingSep))
      in if chunks = [] \<and> TrimSpace content \<noteq> [] then [content] else chunks)"

text \<open>The loop of \<open>Retrieve\<close> that trims, drops blank chunks and scores the rest.\<close>

definition scoreChunks :: "string list \<Rightarrow> string \<Rightarrow> string list \<Rightarrow> memoryChunk list" where
  "scoreChunks rawChunks queryLower queryWords =
     map (\<lambda>txt. \<lparr>chunk_text = txt, chunk_score = scoreChunk txt queryLower queryWords\<rparr>)
       (filter (\<lambda>txt. txt \<noteq> []) (map TrimSpace rawChunks))"

text \<open>
  The loop that writes the result: \<open>i\<close> is the loop counter, \<open>b\<close> the builder's contents.
  \<^verbatim>\<open>for i := 0; i < limit && i < len(chunks); i++ {
     if chunks[i].score <= 0 && i > 0 { break }
     if i > 0 { b.WriteString("\n\n---\n\n") }
     b.WriteString(chunks[i].text) }\<close>
\<close>

function writeChunks :: "memoryChunk list \<Rightarrow> nat \<Rightarrow> nat \<Rightarrow> string \<Rightarrow> string" where
  "writeChunks chunks limit i b =
     (if i < limit \<and> i < length chunks
      then (if chunk_score (chunks ! i) \<le> 0 \<and> i > 0 then b
            else writeChunks chunks limit (Suc i)
                   ((if i > 0 then b @ chunkSep else b) @ chunk_text (chunks ! i)))
      else b)"
  by pat_completeness auto
termination
  by (relation "measure (\<lambda>(chunks, limit, i, b). length chunks - i)") auto

declare writeChunks.simps [simp del]

text \<open>
  \<open>Retrieve\<close> returns \<open>(string, error)\<close>; the error is \<open>nil\<close> on every path, so the model
  returns the string.
\<close>

definition Retrieve :: "diskfile \<Rightarrow> string \<Rightarrow> int \<Rightarrow> string" where
  "Retrieve memoryFile query limit =
     (let limit = (if limit \<le> 0 then 10 else limit);
          query = TrimSpace query;
          longTerm = ReadLongTerm memoryFile
      in if longTerm = [] then []
         else let rawChunks = splitMemoryChunks longTerm
              in if rawChunks = [] then []
                 else let queryLower = ToLower query;
                          queryWords = tokenizeForMatch queryLower;
                          chunks = scoreChunks rawChunks queryLower queryWords;
                          chunks = sortByScoreDesc chunk_score chunks;
                          limit = (if limit > int (length chunks) then int (length chunks) else limit)
                      in writeChunks chunks (nat limit) 0 [])"

text \<open>The chunks of the long-term memory in the order \<open>Retrieve\<close> ranks them.\<close>

definition rankedChunks :: "diskfile \<Rightarrow> string \<Rightarrow> memoryChunk list" where
  "rankedChunks memoryFile query =
     (let queryLower = ToLower (TrimSpace query)
      in sortByScoreDesc chunk_score
           (scoreChunks (splitMemoryChunks (ReadLongTerm memoryFile)) queryLower
              (tokenizeForMatch queryLower)))"


text \<open>A long-term memory of three paragraphs, two of which will score the same.\<close>

definition tiedMemory :: string where
  "tiedMemory = ''aa x'' @ paragraphSep @ ''aa y'' @ paragraphSep @ ''aa bb''"


section \<open>Memory store: daily notes (pkg/agent/memory.go)\<close>

text \<open>
  \<open>AppendToday\<close> reads today's file, computes the new contents and hands them to
  \<open>os.WriteFile\<close>. \<open>today\<close> is \<open>time.Now().Format("2006-01-02")\<close>. The model returns the
  contents written; \<open>os.WriteFile\<close> replaces the file by them when it succeeds.
\<close>

definition AppendToday :: "string \<Rightarrow> diskfile \<Rightarrow> string \<Rightarrow> string" where
  "AppendToday today todayFile content =
     (let existingContent = (case todayFile of Some d \<Rightarrow> d | None \<Rightarrow> [])
      in if existingContent = []
         then (let header = ''# '' @ today @ [CHR 0x0A, CHR 0x0A] in header @ content)
         else existingContent @ [CHR 0x0A] @ content)"

text \<open>The lines of a text: the pieces between its newline bytes.\<close>

definition linesOf :: "string \<Rightarrow> string list" where
  "linesOf s = Split s [CHR 0x0A]"

text \<open>
  The specification's reading of an append: the lines of the prior contents, a blank line,
  the lines of the new content.
\<close>

definition spec_appended :: "string \<Rightarrow> string \<Rightarrow> string \<Rightarrow> bool" where
  "spec_appended prior content new = (linesOf new = linesOf prior @ [[]] @ linesOf content)"

section \<open>Session history: turns (package session)\<close>

text \<open>
  Of \<open>providers.Message\<close> the package reads the fields \<open>Role\<close> and \<open>Content\<close> only.
  Indices are \<open>int\<close> in Go and never negative here; they are natural numbers in the model.
\<close>

record Message =
  Role :: string
  Content :: string

record Turn =
  StartIndex :: nat
  EndIndex :: nat
  Text :: string

text \<open>\<^verbatim>\<open>for end < len(messages) && messages[end].Role != "user" { end++ }\<close>\<close>

function scanTurnEnd :: "Message list \<Rightarrow> nat \<Rightarrow> nat" where
  "scanTurnEnd messages endIdx =
     (if endIdx < length messages \<and> Role (messages ! endIdx) \<noteq> ''user''
      then scanTurnEnd messages (Suc endIdx) else endIdx)"
  by pat_completeness auto
termination
  by (relation "measure (\<lambda>(messages, endIdx). length messages - endIdx)") auto

declare scanTurnEnd.simps [simp del]

lemma scanTurnEnd_ge: "endIdx \<le> scanTurnEnd messages endIdx"
proof (induction messages endIdx rule: scanTurnEnd.induct)
  case (1 messages endIdx)
  then show ?case by (subst scanTurnEnd.simps) auto
qed

text \<open>The non-empty \<open>Content\<close> fields of \<open>messages[start:end]\<close>, joined by single spaces.\<close>

definition turnText :: "Message list \<Rightarrow> nat \<Rightarrow> nat \<Rightarrow> string" where
  "turnText messages start endIdx =
     Join (filter (\<lambda>c. c \<noteq> []) (map Content (take (endIdx - start) (drop start messages)))) '' ''"

text \<open>
  The outer loop of \<open>PartitionTurns\<close>, with its counter \<open>i\<close> and the turns appended so far.
  The body ends with \<open>i = end - 1\<close>, and the loop header adds 1.
\<close>

function partitionFrom :: "Message list \<Rightarrow> nat \<Rightarrow> Turn list \<Rightarrow> Turn list" where
  "partitionFrom messages i turns =
     (if i < length messages
      then (if Role (messages ! i) \<noteq> ''user'' then partitionFrom messages (Suc i) turns
            else (let start = i; endIdx = scanTurnEnd messages (i + 1)
                  in partitionFrom messages (Suc (endIdx - 1))
                       (turns @ [\<lparr>StartIndex = start, EndIndex = endIdx,
                                  Text = turnText messages start endIdx\<rparr>])))
      else turns)"
  by pat_completeness auto
termination
proof (relation "measure (\<lambda>(messages, i, turns). length messages - i)", goal_cases)
  case 1
  then show ?case by simp
next
  case (2 messages i turns)
  then show ?case by simp
next
  case (3 messages i turns start endIdx)
  then show ?case using scanTurnEnd_ge[of "i + 1" messages] by simp
qed

declare partitionFrom.simps [simp del]

definition PartitionTurns :: "Message list \<Rightarrow> Turn list" where
  "PartitionTurns messages = partitionFrom messages 0 []"

section \<open>Session history: selection (package session)\<close>

record scored =
  s_turn :: Turn
  s_score :: int
  s_idx :: nat

text \<open>
  The loop over the sorted turns. \<open>selectedIdx\<close> is the Go map from index to bool, a key
  that is absent reading as false, and \<open>cnt\<close> the variable \<open>count\<close>:
  \<^verbatim>\<open>for _, s := range scoredTurns {
     if count >= limit && selectedIdx[s.idx] { continue }
     if !selectedIdx[s.idx] { selectedIdx[s.idx] = true; count++ } }\<close>
\<close>

fun selectTop :: "int \<Rightarrow> scored list \<Rightarrow> (nat \<Rightarrow> bool) \<Rightarrow> int \<Rightarrow> (nat \<Rightarrow> bool)" where
  "selectTop limit [] selectedIdx cnt = selectedIdx"
| "selectTop limit (s # ss) selectedIdx cnt =
     (if cnt \<ge> limit \<and> selectedIdx (s_idx s) then selectTop limit ss selectedIdx cnt
      else if \<not> selectedIdx (s_idx s)
           then selectTop limit ss (selectedIdx(s_idx s := True)) (cnt + 1)
           else selectTop limit ss selectedIdx cnt)"

definition scoreTurns :: "Turn list \<Rightarrow> string \<Rightarrow> string list \<Rightarrow> scored list" where
  "scoreTurns turns queryLower queryWords =
     map (\<lambda>i. \<lparr>s_turn = turns ! i,
                s_score = scoreTurn (Text (turns ! i)) queryLower queryWords,
                s_idx = i\<rparr>) [0..<length turns]"

definition SelectRelevantTurns :: "Turn list \<Rightarrow> string \<Rightarrow> int \<Rightarrow> int \<Rightarrow> Turn list" where
  "SelectRelevantTurns turns query limit fallbackKeep =
     (let query = TrimSpace query;
          queryLower = ToLower query;
          queryWords = session_tokenizeForMatch queryLower;
          limit = (if limit \<le> 0 then 20 else limit);
          fallbackKeep = (if fallbackKeep \<le> 0 then 8 else fallbackKeep);
          scoredTurns = scoreTurns turns queryLower queryWords;
          lastN = (if fallbackKeep > int (length turns) then length turns else nat fallbackKeep);
          lastNSet = [length turns - lastN..<length turns];
          scoredTurns = sortByScoreDesc s_score scoredTurns;
          selectedIdx = selectTop limit scoredTurns (\<lambda>i. False) 0;
          selectedIdx = fold (\<lambda>i sel. sel(i := True)) lastNSet selectedIdx
      in map (\<lambda>i. turns ! i) (filter selectedIdx [0..<length turns]))"

text \<open>
  The selection as the doc comment of \<open>SelectRelevantTurns\<close> and the specification word it:
  the first \<open>limit\<close> turns of the ranking, together with the last
  \<open>min(fallbackKeep, |turns|)\<close> turns, in the original order.
\<close>

definition spec_SelectRelevantTurns :: "Turn list \<Rightarrow> string \<Rightarrow> nat \<Rightarrow> nat \<Rightarrow> Turn list" where
  "spec_SelectRelevantTurns turns query limit fallbackKeep =
     (let queryLower = ToLower (TrimSpace query);
          ranked = sortByScoreDesc s_score
                     (scoreTurns turns queryLower (session_tokenizeForMatch queryLower));
          top = set (map s_idx (take limit ranked));
          lastN = set [length turns - min fallbackKeep (length turns)..<length turns]
      in map (\<lambda>i. turns ! i) (filter (\<lambda>i. i \<in> top \<union> lastN) [0..<length turns]))"

text \<open>The message at index \<open>k\<close> has the role \<open>user\<close>.\<close>

definition isUserAt :: "Message list \<Rightarrow> nat \<Rightarrow> bool" where
  "isUserAt messages k = (Role (messages ! k) = ''user'')"

text \<open>
  The invariant of the loop of \<open>PartitionTurns\<close> when its counter is \<open>i\<close>: the turns start
  at the user messages before \<open>i\<close>, in order; each ends at or before \<open>i\<close> and holds no
  user message after its first.
\<close>

definition turnsUpTo :: "Message list \<Rightarrow> nat \<Rightarrow> Turn list \<Rightarrow> bool" where
  "turnsUpTo messages i turns \<longleftrightarrow>
     i \<le> length messages \<and>
     map StartIndex turns = filter (isUserAt messages) [0..<i] \<and>
     (\<forall>t \<in> set turns. StartIndex t < EndIndex t \<and> EndIndex t \<le> i \<and>
        (\<forall>k. StartIndex t < k \<and> k < EndIndex t \<longrightarrow> \<not> isUserAt messages k))"

text \<open>A history after the one of the package tests: a tool chain, then a second question.\<close>

definition exMsgs :: "Message list" where
  "exMsgs = [\<lparr>Role = ''user'', Content = ''run ls''\<rparr>, \<lparr>Role = ''assistant'', Content = ''running''\<rparr>,
    \<lparr>Role = ''tool'', Content = ''file1.txt''\<rparr>, \<lparr>Role = ''assistant'', Content = ''Here are the files.''\<rparr>,
    \<lparr>Role = ''user'', Content = ''what about the weather''\<rparr>, \<lparr>Role = ''assistant'', Content = ''I do not have weather.''\<rparr>]"


text \<open>Three turns; only the first mentions \<open>aa\<close>.\<close>

definition exTurns :: "Turn list" where
  "exTurns = [\<lparr>StartIndex = 0, EndIndex = 2, Text = ''aa''\<rparr>,
              \<lparr>StartIndex = 2, EndIndex = 4, Text = ''bb''\<rparr>,
              \<lparr>StartIndex = 4, EndIndex = 6, Text = ''cc''\<rparr>]"


section \<open>End-to-end encryption (pkg/channels/botschat_e2e.go)\<close>

text \<open>
  Byte slices are lists of 8-bit words. The packages \<open>crypto/hmac\<close>, \<open>crypto/sha256\<close> and
  \<open>crypto/aes\<close> are not part of the repository: HMAC-SHA256 and the AES block function are
  parameters of the model, \<open>hmacSHA256 key message\<close> and \<open>aesEncrypt key block\<close>.
  \<open>crypto/cipher\<close>'s counter mode is modelled as Go implements it.
\<close>

type_synonym byte = "8 word"

text \<open>\<open>[]byte(s)\<close>.\<close>

definition bytesOf :: "string \<Rightarrow> byte list" where
  "bytesOf s = map of_char s"

text \<open>
  The errors the two functions return, \<open>errors.New("e2e: key must be 32 bytes")\<close> and the
  \<open>KeySizeError\<close> of \<open>aes.NewCipher\<close>, and the panic of \<open>cipher.NewCTR\<close> on an IV whose
  length is not the block size.
\<close>

datatype e2e_error =
  KeyMustBe32Bytes
| KeySizeError nat
| PanicIVLength

definition e2eKeyLen :: nat where "e2eKeyLen = 32"
definition e2eNonceLen :: nat where "e2eNonceLen = 16"
definition aesBlockSize :: nat where "aesBlockSize = 16"

text \<open>
  \<open>h.Sum(nil)[:e2eNonceLen]\<close> of the HMAC of \<open>"nonce-" + contextId\<close> followed by the byte 1.
  A digest shorter than 16 bytes would make the slice expression panic; here it gives a
  short IV, on which \<open>NewCTR\<close> panics.
\<close>

definition e2eNonce :: "(byte list \<Rightarrow> byte list \<Rightarrow> byte list) \<Rightarrow> byte list \<Rightarrow> string \<Rightarrow> byte list" where
  "e2eNonce hmacSHA256 key contextId =
     take e2eNonceLen (hmacSHA256 key (bytesOf (''nonce-'' @ contextId) @ [0x01]))"

definition NewCipher :: "(byte list \<Rightarrow> byte list \<Rightarrow> byte list) \<Rightarrow> byte list
    \<Rightarrow> e2e_error + (byte list \<Rightarrow> byte list)" where
  "NewCipher aesEncrypt key =
     (if length key \<in> {16, 24, 32} then Inr (aesEncrypt key) else Inl (KeySizeError (length key)))"

text \<open>
  The counter is a big-endian number of 16 bytes; after each block Go adds 1 from the last
  byte, carrying while a byte wraps to 0. \<open>incLow\<close> works on the reversed counter.
\<close>

fun incLow :: "byte list \<Rightarrow> byte list" where
  "incLow [] = []"
| "incLow (b # bs) = (if b + 1 = 0 then 0 # incLow bs else (b + 1) # bs)"

definition incCounter :: "byte list \<Rightarrow> byte list" where
  "incCounter ctr = rev (incLow (rev ctr))"

text \<open>The first \<open>n\<close> bytes of the key stream: the encryptions of the successive counters.\<close>

function keyStream :: "(byte list \<Rightarrow> byte list) \<Rightarrow> byte list \<Rightarrow> nat \<Rightarrow> byte list" where
  "keyStream block ctr n =
     (if n = 0 then [] else take n (block ctr) @ keyStream block (incCounter ctr) (n - aesBlockSize))"
  by pat_completeness auto
termination
  by (relation "measure (\<lambda>(block, ctr, n). n)") (auto simp: aesBlockSize_def)

declare keyStream.simps [simp del]

record ctrStream =
  ctr_block :: "byte list \<Rightarrow> byte list"
  ctr_iv :: "byte list"

definition NewCTR :: "(byte list \<Rightarrow> byte list) \<Rightarrow> byte list \<Rightarrow> e2e_error + ctrStream" where
  "NewCTR block iv =
     (if length iv \<noteq> aesBlockSize then Inl PanicIVLength
      else Inr \<lparr>ctr_block = block, ctr_iv = iv\<rparr>)"

text \<open>\<open>stream.XORKeyStream(dst, src)\<close> with \<open>dst\<close> of the length of \<open>src\<close>; the result is \<open>dst\<close>.\<close>

definition XORKeyStream :: "ctrStream \<Rightarrow> byte list \<Rightarrow> byte list" where
  "XORKeyStream stream src =
     map2 (XOR) src (keyStream (ctr_block stream) (ctr_iv stream) (length src))"

definition encryptE2EBytes ::
  "(byte list \<Rightarrow> byte list \<Rightarrow> byte list) \<Rightarrow> (byte list \<Rightarrow> byte list \<Rightarrow> byte list) \<Rightarrow>
   byte list \<Rightarrow> byte list \<Rightarrow> string \<Rightarrow> e2e_error + byte list" where
  "encryptE2EBytes hmacSHA256 aesEncrypt key plaintext contextId =
     (if length key \<noteq> e2eKeyLen then Inl KeyMustBe32Bytes
      else let nonce = e2eNonce hmacSHA256 key contextId
           in case NewCipher aesEncrypt key of
                Inl err \<Rightarrow> Inl err
              | Inr block \<Rightarrow>
                  (case NewCTR block nonce of
                     Inl p \<Rightarrow> Inl p
                   | Inr stream \<Rightarrow> Inr (XORKeyStream stream plaintext)))"

definition decryptE2EBytes ::
  "(byte list \<Rightarrow> byte list \<Rightarrow> byte list) \<Rightarrow> (byte list \<Rightarrow> byte list \<Rightarrow> byte list) \<Rightarrow>
   byte list \<Rightarrow> byte list \<Rightarrow> string \<Rightarrow> e2e_error + byte list" where
  "decryptE2EBytes hmacSHA256 aesEncrypt key ciphertext contextId =
     (if length key \<noteq> e2eKeyLen then Inl KeyMustBe32Bytes
      else let nonce = e2eNonce hmacSHA256 key contextId
           in case NewCipher aesEncrypt key of
                Inl err \<Rightarrow> Inl err
              | Inr block \<Rightarrow>
                  (case NewCTR block nonce of
                     Inl p \<Rightarrow> Inl p
                   | Inr stream \<Rightarrow> Inr (XORKeyStream stream ciphertext)))"

text \<open>
  What the proofs need of the two library functions: an HMAC-SHA256 digest has 32 bytes, and
  an AES block has 16.
\<close>

definition libraryShapes ::
  "(byte list \<Rightarrow> byte list \<Rightarrow> byte list) \<Rightarrow> (byte list \<Rightarrow> byte list \<Rightarrow> byte list) \<Rightarrow> bool" where
  "libraryShapes hmacSHA256 aesEncrypt \<longleftrightarrow>
     (\<forall>k m. length (hmacSHA256 k m) = 32) \<and> (\<forall>k b. length (aesEncrypt k b) = aesBlockSize)"

text \<open>Stand-ins of the right shapes for the two library functions, and a key of 32 bytes.\<close>

definition toyHmac :: "byte list \<Rightarrow> byte list \<Rightarrow> byte list" where
  "toyHmac k m = take 32 (m @ k @ replicate 32 0)"

definition toyBlock :: "byte list \<Rightarrow> byte list \<Rightarrow> byte list" where
  "toyBlock k b = take 16 (map2 (XOR) (b @ replicate 16 0) (k @ replicate 16 1))"

definition toyKey :: "byte list" where
  "toyKey = map of_nat [0..<32]"


section \<open>Hook dispatcher (pkg/hooks)\<close>

text \<open>
  \<open>Event\<close> is a string type. Of \<open>Context\<close> the model keeps the string fields; \<open>Dispatch\<close>
  reads \<open>TurnID\<close>, \<open>SessionKey\<close>, \<open>Channel\<close> and \<open>ChatID\<close>. A Go \<open>error\<close> is its message, \<open>nil\<close>
  is \<open>None\<close>. A metadata map is a list of pairs.
\<close>

type_synonym event = string

type_synonym metadata = "(string \<times> string) list"

record Context =
  TurnID :: string
  SessionKey :: string
  Channel :: string
  ChatID :: string
  Model :: string
  UserMessage :: string
  ToolName :: string
  ToolResult :: string
  LLMResponseSummary :: string
  ErrorMessage :: string
  Workspace :: string

record Result =
  Status :: string
  Message :: string
  Metadata :: metadata
  Err :: "string option"
  DurationMs :: int

definition StatusOK :: string where "StatusOK = ''ok''"
definition StatusError :: string where "StatusError = ''error''"

text \<open>
  A Go call either returns or panics. The panic value is kept as \<open>fmt\<close> prints it with
  \<open>%v\<close>; it is never \<open>nil\<close> (since Go 1.21 \<open>panic(nil)\<close> raises a \<open>PanicNilError\<close>).
\<close>

datatype 'a outcome = Returned 'a | Panicked string

text \<open>
  A handler is what its two methods do: \<open>Name()\<close> returns a string or panics, \<open>Handle\<close>
  returns a result or panics on the event and context it is given. Both are taken to do
  the same at every call.
\<close>

record Handler =
  Name :: "string outcome"
  Handle :: "event \<Rightarrow> Context \<Rightarrow> Result outcome"

text \<open>
  The fields of \<open>AuditEntry\<close> carry the prefix \<open>Entry\<close>, since \<open>Result\<close> and \<open>Context\<close> have
  fields of the same names. \<open>Timestamp\<close> (the wall clock) is left out.
\<close>

record AuditEntry =
  EntryTurnID :: string
  EntryEvent :: event
  EntryHandler :: string
  EntryStatus :: string
  EntryMessage :: string
  EntryError :: string
  EntryDurationMs :: int
  EntrySessionKey :: string
  EntryChannel :: string
  EntryChatID :: string
  EntryMetadata :: metadata

text \<open>
  An audit sink is what its \<open>Write\<close> method does with an entry: it returns an error or
  \<open>nil\<close>, or it panics.
\<close>

type_synonym AuditSink = "AuditEntry \<Rightarrow> string option outcome"

text \<open>
  The dispatcher: the handlers of each event in the order of registration, and the audit
  sink, \<open>None\<close> for \<open>nil\<close>. \<open>Register\<close> ignores a \<open>nil\<close> handler.
\<close>

record Dispatcher =
  handlers :: "event \<Rightarrow> Handler list"
  audit :: "AuditSink option"

definition NewDispatcher :: "AuditSink option \<Rightarrow> Dispatcher" where
  "NewDispatcher sink = \<lparr>handlers = (\<lambda>ev. []), audit = sink\<rparr>"

definition Register :: "Dispatcher \<Rightarrow> event \<Rightarrow> Handler option \<Rightarrow> Dispatcher" where
  "Register d ev handler =
     (case handler of
        None \<Rightarrow> d
      | Some h \<Rightarrow> d\<lparr>handlers := (handlers d)(ev := handlers d ev @ [h])\<rparr>)"

text \<open>The zero value of \<open>Result\<close>, which the named result holds when \<open>Handle\<close> panics.\<close>

definition zeroResult :: Result where
  "zeroResult = \<lparr>Status = [], Message = [], Metadata = [], Err = None, DurationMs = 0\<rparr>"

text \<open>
  The body of \<open>runHandler\<close>: the call of \<open>Handle\<close> and the two normalisations after it.
  A panic of \<open>Handle\<close> leaves the body at once.
\<close>

definition handlerBody :: "Handler \<Rightarrow> event \<Rightarrow> Context \<Rightarrow> Result outcome" where
  "handlerBody handler ev data =
     (case Handle handler ev data of
        Panicked v \<Rightarrow> Panicked v
      | Returned result \<Rightarrow>
          (let result = (if Status result = []
                         then (if Err result \<noteq> None then result\<lparr>Status := StatusError\<rparr>
                               else result\<lparr>Status := StatusOK\<rparr>)
                         else result);
               result = (if Status result = StatusError \<and> Err result = None
                         then result\<lparr>Err := Some (''hook error: '' @ Message result)\<rparr>
                         else result)
           in Returned result))"

text \<open>
  The deferred function of \<open>runHandler\<close>. It runs when the body returns and when it
  panics; \<open>recover()\<close> gives the panic value in the second case, and the function then calls
  \<open>handler.Name()\<close> to build the error. Nothing recovers a panic of that call: it leaves
  \<open>runHandler\<close>. \<open>elapsed\<close> is \<open>time.Since(start).Milliseconds()\<close>.
\<close>

definition deferredRecover :: "int \<Rightarrow> Handler \<Rightarrow> Result outcome \<Rightarrow> Result outcome" where
  "deferredRecover elapsed handler body =
     (let (result, rec) = (case body of Returned r \<Rightarrow> (r, None) | Panicked v \<Rightarrow> (zeroResult, Some v));
          result = result\<lparr>DurationMs := elapsed\<rparr>
      in case rec of
           None \<Rightarrow> Returned (if Status result = [] then result\<lparr>Status := StatusOK\<rparr> else result)
         | Some v \<Rightarrow>
             (case Name handler of
                Panicked p \<Rightarrow> Panicked p
              | Returned name \<Rightarrow>
                  (let result = \<lparr>Status = StatusError, Message = ''hook panic recovered'',
                                  Metadata = [],
                                  Err = Some (''panic in hook '' @ name @ '': '' @ v),
                                  DurationMs = elapsed\<rparr>
                   in Returned (if Status result = [] then result\<lparr>Status := StatusOK\<rparr>
                                else result))))"

definition runHandler :: "int \<Rightarrow> Handler \<Rightarrow> event \<Rightarrow> Context \<Rightarrow> Result outcome" where
  "runHandler elapsed handler ev data = deferredRecover elapsed handler (handlerBody handler ev data)"

text \<open>
  The entry \<open>Dispatch\<close> hands to \<open>audit.Write\<close>; \<open>name\<close> is what \<open>handler.Name()\<close> returned.
\<close>

definition auditEntryOf :: "string \<Rightarrow> event \<Rightarrow> Context \<Rightarrow> Result \<Rightarrow> AuditEntry" where
  "auditEntryOf name ev data result =
     (let entry = \<lparr>EntryTurnID = TurnID data, EntryEvent = ev, EntryHandler = name,
                   EntryStatus = Status result, EntryMessage = Message result, EntryError = [],
                   EntryDurationMs = DurationMs result, EntrySessionKey = SessionKey data,
                   EntryChannel = Channel data, EntryChatID = ChatID data,
                   EntryMetadata = Metadata result\<rparr>
      in case Err result of None \<Rightarrow> entry | Some e \<Rightarrow> entry\<lparr>EntryError := e\<rparr>)"

text \<open>
  The loop of \<open>Dispatch\<close> over the snapshot of the handlers: \<open>k\<close> counts the handlers run,
  \<open>elapsedOf k\<close> is the time the clock measures for the \<open>k\<close>-th, \<open>written\<close> collects the
  entries the sink was given (the error \<open>Write\<close> returns is dropped). \<open>Dispatch\<close> has no
  \<open>recover\<close> of its own: a panic that leaves \<open>runHandler\<close>, the call of \<open>handler.Name()\<close> for
  the entry or \<open>audit.Write\<close> leaves \<open>Dispatch\<close>.
\<close>

fun dispatchLoop :: "AuditSink option \<Rightarrow> (nat \<Rightarrow> int) \<Rightarrow> event \<Rightarrow> Context \<Rightarrow> Handler list \<Rightarrow> nat \<Rightarrow>
    Result list \<Rightarrow> AuditEntry list \<Rightarrow> (Result list \<times> AuditEntry list) outcome" where
  "dispatchLoop sink elapsedOf ev data [] k results written = Returned (results, written)"
| "dispatchLoop sink elapsedOf ev data (handler # rest) k results written =
     (case runHandler (elapsedOf k) handler ev data of
        Panicked v \<Rightarrow> Panicked v
      | Returned result \<Rightarrow>
          (case sink of
             None \<Rightarrow> dispatchLoop sink elapsedOf ev data rest (Suc k) (results @ [result]) written
           | Some write \<Rightarrow>
               (case Name handler of
                  Panicked v \<Rightarrow> Panicked v
                | Returned name \<Rightarrow>
                    (let entry = auditEntryOf name ev data result
                     in case write entry of
                          Panicked v \<Rightarrow> Panicked v
                        | Returned err \<Rightarrow>
                            dispatchLoop sink elapsedOf ev data rest (Suc k)
                              (results @ [result]) (written @ [entry])))))"

definition Dispatch :: "Dispatcher \<Rightarrow> (nat \<Rightarrow> int) \<Rightarrow> event \<Rightarrow> Context \<Rightarrow>
    (Result list \<times> AuditEntry list) outcome" where
  "Dispatch d elapsedOf ev data = dispatchLoop (audit d) elapsedOf ev data (handlers d ev) 0 [] []"

text \<open>The result \<open>runHandler\<close> returns, when it returns.\<close>

definition resultOf :: "int \<Rightarrow> Handler \<Rightarrow> event \<Rightarrow> Context \<Rightarrow> Result" where
  "resultOf elapsed handler ev data =
     (case runHandler elapsed handler ev data of Returned r \<Rightarrow> r | Panicked v \<Rightarrow> zeroResult)"

text \<open>The name \<open>handler.Name()\<close> returns, when it returns.\<close>

definition nameOf :: "Handler \<Rightarrow> string" where
  "nameOf handler = (case Name handler of Returned name \<Rightarrow> name | Panicked v \<Rightarrow> [])"

text \<open>A sink that keeps every entry, and one whose \<open>Write\<close> panics.\<close>

definition memorySink :: AuditSink where
  "memorySink entry = Returned None"


text \<open>
  Handlers for the examples: one that returns ok, one that panics, one that returns an
  error with an empty status, one that returns a status of its own, and one whose
  \<open>Handle\<close> and \<open>Name\<close> both panic (as the methods of a \<open>nil\<close> pointer to a struct with
  value receivers do).
\<close>

definition okHandler :: Handler where
  "okHandler = \<lparr>Name = Returned ''a'', Handle = (\<lambda>ev data. Returned
      \<lparr>Status = ''ok'', Message = ''ok'', Metadata = [], Err = None, DurationMs = 0\<rparr>)\<rparr>"

definition panicHandler :: Handler where
  "panicHandler = \<lparr>Name = Returned ''panic'', Handle = (\<lambda>ev data. Panicked ''boom'')\<rparr>"

definition bareHandler :: Handler where
  "bareHandler = \<lparr>Name = Returned ''bare'', Handle = (\<lambda>ev data. Returned
      \<lparr>Status = [], Message = ''failed'', Metadata = [], Err = Some ''disk full'', DurationMs = 0\<rparr>)\<rparr>"

definition skippingHandler :: Handler where
  "skippingHandler = \<lparr>Name = Returned ''skip'', Handle = (\<lambda>ev data. Returned
      \<lparr>Status = ''skipped'', Message = ''nothing to do'', Metadata = [], Err = None, DurationMs = 0\<rparr>)\<rparr>"

definition turnContext :: Context where
  "turnContext = \<lparr>TurnID = ''t2'', SessionKey = ''s1'', Channel = [], ChatID = [], Model = [],
     UserMessage = [], ToolName = [], ToolResult = [], LLMResponseSummary = [], ErrorMessage = [],
     Workspace = []\<rparr>"

definition threeHandlers :: Dispatcher where
  "threeHandlers =
     Register (Register (Register (Register (NewDispatcher None) ''before_turn'' (Some okHandler))
       ''before_turn'' None) ''before_turn'' (Some panicHandler)) ''before_turn'' (Some bareHandler)"

definition oneSkipping :: Dispatcher where
  "oneSkipping = Register (NewDispatcher (Some memorySink)) ''before_turn'' (Some skippingHandler)"




section \<open>Chat completions endpoint (pkg/openaiapi/handler.go)\<close>

text \<open>
  A decoded JSON value, as \<open>encoding/json\<close> stores it in an \<open>interface{}\<close>: \<open>nil\<close>, a string,
  a slice, a map (a list of pairs with distinct keys), or a number or boolean (\<open>JOther\<close>).
\<close>

datatype jsonValue =
  JNull
| JString string
| JArray "jsonValue list"
| JObject "(string \<times> jsonValue) list"
| JOther
























section \<open>Properties of the string model\<close>


lemma scoreWords_count:
  "scoreWords cl ws acc = acc + int (length (filter (Contains cl) ws))"
  by (induction ws arbitrary: acc) auto

lemma fieldsFrom_letters:
  "\<forall>c \<in> set cur. \<not> f c \<Longrightarrow> w \<in> set (fieldsFrom f cur s) \<Longrightarrow> w \<noteq> [] \<and> (\<forall>c \<in> set w. \<not> f c)"
proof (induction s arbitrary: cur)
  case Nil
  then show ?case by (auto split: if_splits)
next
  case (Cons a s)
  show ?case
  proof (cases "f a")
    case True
    then have "(w = cur \<and> cur \<noteq> []) \<or> w \<in> set (fieldsFrom f [] s)"
      using Cons.prems(2) by (auto split: if_splits)
    then show ?thesis using Cons.IH[of "[]"] Cons.prems(1) by auto
  next
    case False
    then have "w \<in> set (fieldsFrom f (cur @ [a]) s)" using Cons.prems(2) by simp
    then show ?thesis using Cons.IH[of "cur @ [a]"] Cons.prems(1) False by auto
  qed
qed

lemma tokenizeForMatch_letters:
  "w \<in> set (tokenizeForMatch s) \<Longrightarrow> 2 \<le> length w \<and> set w \<subseteq> set lowerLetters"
  using fieldsFrom_letters[of "[]" notLowerLetter w s]
  by (auto simp: tokenizeForMatch_def FieldsFunc_def notLowerLetter_def)

lemma fieldsFrom_concat:
  "concat (fieldsFrom f cur s) = cur @ filter (\<lambda>c. \<not> f c) s"
  by (induction s arbitrary: cur) auto

section \<open>The sort returns a permutation in descending order of score\<close>

lemma take_swapAt: "i \<le> a \<Longrightarrow> i \<le> b \<Longrightarrow> take i (swapAt a b xs) = take i xs"
  by (simp add: swapAt_def)

lemma mset_drop_swapAt:
  assumes "i \<le> a" "i \<le> b" "a < length xs" "b < length xs"
  shows "mset (drop i (swapAt a b xs)) = mset (drop i xs)"
proof -
  let ?d = "drop i xs"
  have "drop i (swapAt a b xs) = ?d[a - i := ?d ! (b - i), b - i := ?d ! (a - i)]"
    using assms by (simp add: swapAt_def drop_update_swap)
  moreover have "mset (?d[a - i := ?d ! (b - i), b - i := ?d ! (a - i)]) = mset ?d"
    using assms by (intro mset_swap) auto
  ultimately show ?thesis by simp
qed

lemma sortInner_take: "i < j \<Longrightarrow> take i (sortInner sc i j xs) = take i xs"
proof (induction sc i j xs rule: sortInner.induct)
  case (1 sc i j xs)
  show ?case
  proof (cases "j < length xs")
    case True
    then show ?thesis
      using 1 by (subst sortInner.simps) (simp add: take_swapAt)
  next
    case False
    then show ?thesis by (subst sortInner.simps) simp
  qed
qed

lemma sortInner_mset_drop:
  "i < j \<Longrightarrow> mset (drop i (sortInner sc i j xs)) = mset (drop i xs)"
proof (induction sc i j xs rule: sortInner.induct)
  case (1 sc i j xs)
  show ?case
  proof (cases "j < length xs")
    case True
    then show ?thesis
      using 1 by (subst sortInner.simps) (simp add: mset_drop_swapAt)
  next
    case False
    then show ?thesis by (subst sortInner.simps) simp
  qed
qed


lemma sortInner_mset: "i < j \<Longrightarrow> mset (sortInner sc i j xs) = mset xs"
proof -
  assume ij: "i < j"
  have "mset (sortInner sc i j xs) = mset (take i (sortInner sc i j xs)) + mset (drop i (sortInner sc i j xs))"
    by (metis append_take_drop_id mset_append)
  also have "\<dots> = mset (take i xs) + mset (drop i xs)"
    using ij by (simp add: sortInner_take sortInner_mset_drop)
  also have "\<dots> = mset xs" by (metis append_take_drop_id mset_append)
  finally show ?thesis .
qed

lemma sortOuter_mset: "mset (sortOuter sc i xs) = mset xs"
proof (induction sc i xs rule: sortOuter.induct)
  case (1 sc i xs)
  then show ?case by (subst sortOuter.simps) (simp add: sortInner_mset)
qed



lemma sortByScoreDesc_mset: "mset (sortByScoreDesc sc xs) = mset xs"
  unfolding sortByScoreDesc_def by (rule sortOuter_mset)

section \<open>The result of Retrieve\<close>





lemma splitFrom_Nil: "splitFrom sep cur [] = [cur]" by simp






section \<open>The chunks are pieces of the file\<close>


















section \<open>The loop of PartitionTurns\<close>

lemma scanTurnEnd_le: "endIdx \<le> length messages \<Longrightarrow> scanTurnEnd messages endIdx \<le> length messages"
proof (induction messages endIdx rule: scanTurnEnd.induct)
  case (1 messages endIdx)
  then show ?case by (subst scanTurnEnd.simps) auto
qed

lemma scanTurnEnd_no_user:
  "endIdx \<le> k \<Longrightarrow> k < scanTurnEnd messages endIdx \<Longrightarrow> Role (messages ! k) \<noteq> ''user''"
proof (induction messages endIdx rule: scanTurnEnd.induct)
  case (1 messages endIdx)
  show ?case
  proof (cases "endIdx < length messages \<and> Role (messages ! endIdx) \<noteq> ''user''")
    case True
    then have eq: "scanTurnEnd messages endIdx = scanTurnEnd messages (Suc endIdx)"
      by (subst scanTurnEnd.simps) simp
    show ?thesis
    proof (cases "k = endIdx")
      case True
      then show ?thesis using \<open>endIdx < length messages \<and> Role (messages ! endIdx) \<noteq> ''user''\<close> by simp
    next
      case False
      then show ?thesis using 1 True eq by auto
    qed
  next
    case False
    then have "scanTurnEnd messages endIdx = endIdx" by (subst scanTurnEnd.simps) auto
    then show ?thesis using 1(2,3) by simp
  qed
qed

lemma filter_upt_none:
  "\<forall>k. a \<le> k \<and> k < b \<longrightarrow> \<not> P k \<Longrightarrow> filter P [a..<b] = []"
  by (auto simp: filter_empty_conv)

lemma partitionFrom_inv:
  "turnsUpTo messages i turns \<Longrightarrow> turnsUpTo messages (length messages) (partitionFrom messages i turns)"
proof (induction messages i turns rule: partitionFrom.induct)
  case (1 messages i turns)
  show ?case
  proof (cases "i < length messages")
    case False
    then have "i = length messages" using 1(3) by (simp add: turnsUpTo_def)
    then show ?thesis using 1(3) by (subst partitionFrom.simps) simp
  next
    case lt: True
    show ?thesis
    proof (cases "Role (messages ! i) \<noteq> ''user''")
      case True
      have "turnsUpTo messages (Suc i) turns"
        using 1(3) lt True by (auto simp: turnsUpTo_def isUserAt_def)
      then show ?thesis using 1(1)[OF lt True] lt True by (subst partitionFrom.simps) simp
    next
      case False
      define e where "e = scanTurnEnd messages (i + 1)"
      define t where "t = \<lparr>StartIndex = i, EndIndex = e, Text = turnText messages i e\<rparr>"
      have ge: "i + 1 \<le> e" unfolding e_def by (rule scanTurnEnd_ge)
      have le: "e \<le> length messages" unfolding e_def using lt by (intro scanTurnEnd_le) simp
      have nu: "\<And>k. i + 1 \<le> k \<Longrightarrow> k < e \<Longrightarrow> \<not> isUserAt messages k"
        unfolding e_def isUserAt_def by (rule scanTurnEnd_no_user)
      have "[0..<e] = [0..<i] @ [i..<e]"
        using ge upt_add_eq_append[of 0 i "e - i"] by simp
      moreover have "[i..<e] = i # [Suc i..<e]"
        using ge by (simp add: upt_conv_Cons)
      ultimately have "[0..<e] = [0..<i] @ [i] @ [Suc i..<e]" by simp
      then have "filter (isUserAt messages) [0..<e] = filter (isUserAt messages) [0..<i] @ [i]"
        using False nu by (simp add: isUserAt_def filter_upt_none)
      then have inv: "turnsUpTo messages e (turns @ [t])"
        using 1(3) ge le nu by (auto simp: turnsUpTo_def t_def)
      have "Suc (e - 1) = e" using ge by simp
      then have "partitionFrom messages i turns = partitionFrom messages (Suc (e - 1)) (turns @ [t])"
        using lt False by (subst partitionFrom.simps) (simp add: e_def t_def Let_def)
      moreover have "turnsUpTo messages (length messages) (partitionFrom messages (Suc (e - 1)) (turns @ [t]))"
        using 1(2)[OF lt _ refl refl, of ] False inv \<open>Suc (e - 1) = e\<close>
        by (simp add: e_def t_def)
      ultimately show ?thesis by simp
    qed
  qed
qed

lemma PartitionTurns_inv: "turnsUpTo messages (length messages) (PartitionTurns messages)"
  unfolding PartitionTurns_def by (rule partitionFrom_inv) (simp add: turnsUpTo_def)

lemma PartitionTurns_starts:
  "map StartIndex (PartitionTurns messages) = filter (isUserAt messages) [0..<length messages]"
  using PartitionTurns_inv by (simp add: turnsUpTo_def)

lemma starts_sorted: "sorted_wrt (<) (map StartIndex (PartitionTurns messages))"
  unfolding PartitionTurns_starts by (rule sorted_wrt_filter) simp

section \<open>The loop of SelectRelevantTurns\<close>

lemma selectTop_selected:
  "selectTop limit ss sel cnt i \<longleftrightarrow> sel i \<or> i \<in> s_idx ` set ss"
  by (induction ss arbitrary: sel cnt) auto

lemma fold_selected:
  "fold (\<lambda>i sel. sel(i := True)) ks sel j \<longleftrightarrow> sel j \<or> j \<in> set ks"
  by (induction ks arbitrary: sel) auto

lemma scoreTurns_idx: "map s_idx (scoreTurns turns ql qw) = [0..<length turns]"
  by (simp add: scoreTurns_def comp_def)

lemma sorted_scoreTurns_idx:
  "s_idx ` set (sortByScoreDesc s_score (scoreTurns turns ql qw)) = {0..<length turns}"
proof -
  have "set (sortByScoreDesc s_score (scoreTurns turns ql qw)) = set (scoreTurns turns ql qw)"
    by (rule mset_eq_setD) (rule sortByScoreDesc_mset)
  then have "s_idx ` set (sortByScoreDesc s_score (scoreTurns turns ql qw))
      = set (map s_idx (scoreTurns turns ql qw))" by simp
  then show ?thesis by (simp only: scoreTurns_idx set_upt)
qed

lemma all_selected:
  "i < length turns \<Longrightarrow>
   fold (\<lambda>i sel. sel(i := True)) ks
     (selectTop limit (sortByScoreDesc s_score (scoreTurns turns ql qw)) (\<lambda>i. False) 0) i"
  by (simp add: fold_selected selectTop_selected sorted_scoreTurns_idx)

lemma filter_all_selected:
  "filter (fold (\<lambda>i sel. sel(i := True)) ks
     (selectTop limit (sortByScoreDesc s_score (scoreTurns turns ql qw)) (\<lambda>i. False) 0))
     [0..<length turns] = [0..<length turns]"
  by (rule filter_True) (simp add: all_selected)

lemma SelectRelevantTurns_returns_all:
  "SelectRelevantTurns turns query limit fallbackKeep = turns"
  unfolding SelectRelevantTurns_def Let_def
  by (simp only: filter_all_selected map_nth)

section \<open>Counter mode is its own inverse\<close>

lemma length_keyStream:
  "\<forall>b. length (block b) = aesBlockSize \<Longrightarrow> length (keyStream block ctr n) = n"
proof (induction block ctr n rule: keyStream.induct)
  case (1 block ctr n)
  show ?case
  proof (cases "n = 0")
    case True
    then show ?thesis by (subst keyStream.simps) simp
  next
    case False
    then have "length (keyStream block (incCounter ctr) (n - aesBlockSize)) = n - aesBlockSize"
      using 1 by simp
    then show ?thesis using False 1(2)
      by (subst keyStream.simps) (auto simp: min_def)
  qed
qed

lemma xor_twice: "length ks = length xs \<Longrightarrow> map2 (XOR) (map2 (XOR) xs ks) ks = (xs :: byte list)"
proof (induction xs ks rule: list_induct2')
  case (4 x xs k ks)
  then show ?case by (simp add: xor.assoc)
qed simp_all

lemma length_XORKeyStream:
  "\<forall>b. length (ctr_block stream b) = aesBlockSize \<Longrightarrow> length (XORKeyStream stream src) = length src"
  by (simp add: XORKeyStream_def length_keyStream)

lemma XORKeyStream_twice:
  "\<forall>b. length (ctr_block stream b) = aesBlockSize \<Longrightarrow>
   XORKeyStream stream (XORKeyStream stream src) = src"
  by (simp add: XORKeyStream_def length_keyStream xor_twice)

lemma toy_shapes: "libraryShapes toyHmac toyBlock"
  by (auto simp: libraryShapes_def toyHmac_def toyBlock_def aesBlockSize_def)

section \<open>The results of Dispatch\<close>

lemma runHandler_Returned:
  "runHandler elapsed handler ev data = Returned res \<Longrightarrow> res = resultOf elapsed handler ev data"
  by (simp add: resultOf_def)


lemma runHandler_Returned_name:
  assumes "runHandler elapsed handler ev data = Returned res" "Handle handler ev data = Panicked v"
  shows "\<exists>n. Name handler = Returned n"
proof (cases "Name handler")
  case (Returned n)
  then show ?thesis by simp
next
  case (Panicked p)
  then have "runHandler elapsed handler ev data = Panicked p" using assms(2)
    by (simp add: runHandler_def deferredRecover_def handlerBody_def Let_def)
  then show ?thesis using assms(1) by simp
qed

lemma resultOf_panic:
  "Handle handler ev data = Panicked v \<Longrightarrow> Name handler = Returned n \<Longrightarrow>
   resultOf elapsed handler ev data =
     \<lparr>Status = StatusError, Message = ''hook panic recovered'', Metadata = [],
      Err = Some (''panic in hook '' @ n @ '': '' @ v), DurationMs = elapsed\<rparr>"
  by (simp add: resultOf_def runHandler_def deferredRecover_def handlerBody_def StatusError_def)


lemma resultOf_returned:
  "Handle handler ev data = Returned r \<Longrightarrow>
   resultOf elapsed handler ev data =
     r\<lparr>Status := (if Status r = [] then (if Err r \<noteq> None then ''error'' else ''ok'') else Status r),
       Err := (if Status r = ''error'' \<and> Err r = None
               then Some (''hook error: '' @ Message r) else Err r),
       DurationMs := elapsed\<rparr>"
  by (simp add: resultOf_def runHandler_def deferredRecover_def handlerBody_def StatusError_def
        StatusOK_def Let_def)

lemma returned_status_nonempty:
  assumes "runHandler elapsed handler ev data = Returned res"
  shows "Status res \<noteq> []"
proof (cases "Handle handler ev data")
  case (Returned r)
  then show ?thesis using runHandler_Returned[OF assms] by (simp add: resultOf_returned)
next
  case (Panicked v)
  then obtain n where "Name handler = Returned n" using runHandler_Returned_name[OF assms] by blast
  then show ?thesis using Panicked runHandler_Returned[OF assms]
    by (simp add: resultOf_panic StatusError_def)
qed

lemma returned_error_has_Err:
  assumes "runHandler elapsed handler ev data = Returned res" "Status res = ''error''"
  shows "Err res \<noteq> None"
proof (cases "Handle handler ev data")
  case (Returned r)
  then show ?thesis using runHandler_Returned[OF assms(1)] assms(2)
    by (auto simp: resultOf_returned split: if_splits)
next
  case (Panicked v)
  then obtain n where "Name handler = Returned n"
    using runHandler_Returned_name[OF assms(1)] by blast
  then show ?thesis using Panicked runHandler_Returned[OF assms(1)]
    by (simp add: resultOf_panic)
qed

lemma returned_after_panic:
  assumes "runHandler elapsed handler ev data = Returned res" "Handle handler ev data = Panicked v"
  shows "Status res = ''error'' \<and> Message res = ''hook panic recovered''
    \<and> Err res = Some (''panic in hook '' @ nameOf handler @ '': '' @ v)"
proof -
  obtain n where n: "Name handler = Returned n"
    using runHandler_Returned_name[OF assms] by blast
  then have "nameOf handler = n" by (simp add: nameOf_def)
  then show ?thesis using assms(2) n runHandler_Returned[OF assms(1)]
    by (simp add: resultOf_panic StatusError_def)
qed


text \<open>When the loop returns, every handler was run and returned its result.\<close>

lemma dispatchLoop_results:
  "dispatchLoop sink elapsedOf ev data hs k results written = Returned (rs, ws) \<Longrightarrow>
   length rs = length results + length hs
   \<and> take (length results) rs = results
   \<and> (\<forall>i < length hs.
        runHandler (elapsedOf (k + i)) (hs ! i) ev data = Returned (rs ! (length results + i)))"
proof (induction hs arbitrary: k results written)
  case Nil
  then show ?case by simp
next
  case (Cons h hs)
  from Cons.prems obtain result where
    run: "runHandler (elapsedOf k) h ev data = Returned result"
    by (cases "runHandler (elapsedOf k) h ev data") auto
  from Cons.prems run obtain written' where
    rest: "dispatchLoop sink elapsedOf ev data hs (Suc k) (results @ [result]) written' = Returned (rs, ws)"
    by (auto simp: Let_def split: option.splits outcome.splits)
  from Cons.IH[OF rest] have
    len: "length rs = length (results @ [result]) + length hs"
    and tk: "take (length (results @ [result])) rs = results @ [result]"
    and each: "\<forall>i < length hs. runHandler (elapsedOf (Suc k + i)) (hs ! i) ev data
                 = Returned (rs ! (length (results @ [result]) + i))"
    by blast+
  have tk': "take (length results) rs = results"
  proof -
    have "take (length results) (take (length (results @ [result])) rs) = take (length results) rs"
      by (simp add: min_def)
    then show ?thesis unfolding tk by simp
  qed
  have at: "rs ! length results = result"
  proof -
    have "rs ! length results = take (length (results @ [result])) rs ! length results" by simp
    then show ?thesis unfolding tk by simp
  qed
  have all: "\<forall>i < length (h # hs).
        runHandler (elapsedOf (k + i)) ((h # hs) ! i) ev data = Returned (rs ! (length results + i))"
  proof (intro allI impI)
    fix i assume i: "i < length (h # hs)"
    show "runHandler (elapsedOf (k + i)) ((h # hs) ! i) ev data = Returned (rs ! (length results + i))"
    proof (cases i)
      case 0
      then show ?thesis using run at by simp
    next
      case (Suc j)
      then have "j < length hs" using i by simp
      then show ?thesis using each Suc by simp
    qed
  qed
  show ?case using len tk' all by simp
qed


lemma three_registered: "handlers threeHandlers ''before_turn'' = [okHandler, panicHandler, bareHandler]"
  by (simp add: threeHandlers_def Register_def NewDispatcher_def)

lemma threeHandlers_audit: "audit threeHandlers = None"
  by (simp add: threeHandlers_def Register_def NewDispatcher_def)

section \<open>The branches of ServeHTTP\<close>














section \<open>Scoring (claim C3)\<close>

text \<open>
  C3 (as amended). With \<open>q\<close> the lowercased trimmed query, \<open>scoreChunk\<close> is 10 when \<open>q\<close>
  occurs in the lowercased chunk, plus 1 for every token of \<open>q\<close> that occurs in the
  lowercased chunk, a token being counted as often as it stands in the query.
  \<open>scoreTurn\<close> is the same number, except that an empty query earns no 10.
  The tokens are those \<open>tokenizeForMatch\<close> returns: the pieces of \<open>q\<close> between the bytes
  that are not letters a to z, of length at least 2 (lemma \<open>tokenizeForMatch_letters\<close>).
\<close>

theorem scoreChunk_counts_token_occurrences:
  "scoreChunk chunkText (ToLower (TrimSpace query)) (tokenizeForMatch (ToLower (TrimSpace query)))
     = (if Contains (ToLower chunkText) (ToLower (TrimSpace query)) then 10 else 0)
       + int (length (filter (Contains (ToLower chunkText))
               (tokenizeForMatch (ToLower (TrimSpace query)))))
   \<and> scoreTurn chunkText (ToLower (TrimSpace query))
        (session_tokenizeForMatch (ToLower (TrimSpace query)))
     = (if TrimSpace query \<noteq> [] \<and> Contains (ToLower chunkText) (ToLower (TrimSpace query))
        then 10 else 0)
       + int (length (filter (Contains (ToLower chunkText))
               (session_tokenizeForMatch (ToLower (TrimSpace query)))))"
  by (simp add: scoreChunk_def scoreTurn_def scoreWords_count ToLower_def)

text \<open>
  C3 (as stated) fails: the query \<open>ab ab\<close> scores 2 against the chunk \<open>ab\<close>, where counting
  distinct tokens gives 1; and \<open>scoreTurn\<close> gives an empty query 0 where \<open>scoreChunk\<close> gives 10.
\<close>

theorem scoreChunk_repeated_token_counterexample:
  "scoreChunk ''ab'' (ToLower (TrimSpace ''ab ab'')) (tokenizeForMatch (ToLower (TrimSpace ''ab ab''))) = 2
   \<and> spec_score ''ab'' ''ab ab'' = 1
   \<and> scoreTurn ''ab'' (ToLower (TrimSpace '''')) (session_tokenizeForMatch (ToLower (TrimSpace ''''))) = 0
   \<and> spec_score ''ab'' '''' = 10"
  by code_simp

section \<open>Retrieval (claim C5)\<close>



section \<open>Stability of the sort (claim C2)\<close>

text \<open>
  C2 fails on the code. The paragraphs \<open>aa x\<close> and \<open>aa y\<close> both score 1 for the query
  \<open>aa bb\<close> and \<open>aa bb\<close> scores 12. The first pass of the outer loop swaps positions 0 and 2,
  which carries \<open>aa x\<close> behind \<open>aa y\<close>; no later pass swaps equal scores back. \<open>Retrieve\<close>
  returns the two tied chunks in the reverse of their order in the file.
\<close>

theorem sortByScoreDesc_reverses_tie:
  "scoreChunks (splitMemoryChunks tiedMemory) ''aa bb'' (tokenizeForMatch ''aa bb'')
     = [\<lparr>chunk_text = ''aa x'', chunk_score = 1\<rparr>,
        \<lparr>chunk_text = ''aa y'', chunk_score = 1\<rparr>,
        \<lparr>chunk_text = ''aa bb'', chunk_score = 12\<rparr>]
   \<and> rankedChunks (Some tiedMemory) ''aa bb''
     = [\<lparr>chunk_text = ''aa bb'', chunk_score = 12\<rparr>,
        \<lparr>chunk_text = ''aa y'', chunk_score = 1\<rparr>,
        \<lparr>chunk_text = ''aa x'', chunk_score = 1\<rparr>]
   \<and> Retrieve (Some tiedMemory) ''aa bb'' 3
     = ''aa bb'' @ chunkSep @ ''aa y'' @ chunkSep @ ''aa x''"
  by code_simp
section \<open>Daily notes (claim C4)\<close>

text \<open>
  C4 (as amended). When today's file is missing or empty, \<open>AppendToday\<close> writes the header
  \<open># <date>\<close>, a blank line and the content. When the file has contents, it writes the
  prior contents, one newline byte and the content.
\<close>

theorem AppendToday_contents:
  "(todayFile = None \<or> todayFile = Some [] \<longrightarrow>
      AppendToday today todayFile content = ''# '' @ today @ [CHR 0x0A, CHR 0x0A] @ content)
   \<and> (\<forall>prior. todayFile = Some prior \<and> prior \<noteq> [] \<longrightarrow>
      AppendToday today todayFile content = prior @ [CHR 0x0A] @ content)"
  by (auto simp: AppendToday_def)

theorem AppendToday_contents_witness:
  "AppendToday ''2026-11-01'' None ''first'' = ''# 2026-11-01'' @ [CHR 0x0A, CHR 0x0A] @ ''first''
   \<and> AppendToday ''2026-11-01'' (Some (''# 2026-11-01'' @ [CHR 0x0A, CHR 0x0A] @ ''first'')) ''second''
       = ''# 2026-11-01'' @ [CHR 0x0A, CHR 0x0A] @ ''first'' @ [CHR 0x0A] @ ''second''"
  using AppendToday_contents[of None "''2026-11-01''" "''first''"]
    AppendToday_contents[of "Some (''# 2026-11-01'' @ [CHR 0x0A, CHR 0x0A] @ ''first'')"
      "''2026-11-01''" "''second''"]
  by simp

text \<open>
  C4 (as stated) fails: appending \<open>y\<close> to a file that holds \<open>x\<close> writes the two lines \<open>x\<close>
  and \<open>y\<close>, with no blank line between them.
\<close>

theorem AppendToday_no_blank_line_counterexample:
  "AppendToday ''2026-11-01'' (Some ''x'') ''y'' = ''x'' @ [CHR 0x0A] @ ''y''
   \<and> linesOf (AppendToday ''2026-11-01'' (Some ''x'') ''y'') = [''x'', ''y'']
   \<and> \<not> spec_appended ''x'' ''y'' (AppendToday ''2026-11-01'' (Some ''x'') ''y'')"
  by code_simp
section \<open>Turn ranges (claim C8)\<close>

text \<open>
  C8. Every turn of \<open>PartitionTurns m\<close> is a non-empty range inside \<open>m\<close> that starts at a
  user message and holds no other user message; the ranges of two turns are disjoint; and
  every index of a user message is the start of exactly one turn.
\<close>

theorem PartitionTurns_ranges:
  "(\<forall>i < length (PartitionTurns m).
      StartIndex (PartitionTurns m ! i) < EndIndex (PartitionTurns m ! i)
      \<and> EndIndex (PartitionTurns m ! i) \<le> length m
      \<and> Role (m ! StartIndex (PartitionTurns m ! i)) = ''user''
      \<and> (\<forall>k. StartIndex (PartitionTurns m ! i) < k \<and> k < EndIndex (PartitionTurns m ! i)
             \<longrightarrow> Role (m ! k) \<noteq> ''user''))
   \<and> (\<forall>i j. i < j \<and> j < length (PartitionTurns m) \<longrightarrow>
        {StartIndex (PartitionTurns m ! i)..<EndIndex (PartitionTurns m ! i)}
        \<inter> {StartIndex (PartitionTurns m ! j)..<EndIndex (PartitionTurns m ! j)} = {})
   \<and> (\<forall>k < length m. Role (m ! k) = ''user'' \<longrightarrow>
        (\<exists>!i. i < length (PartitionTurns m) \<and> StartIndex (PartitionTurns m ! i) = k))"
proof -
  let ?ts = "PartitionTurns m"
  have inv: "turnsUpTo m (length m) ?ts" by (rule PartitionTurns_inv)
  have starts: "map StartIndex ?ts = filter (isUserAt m) [0..<length m]" by (rule PartitionTurns_starts)
  have user_start: "isUserAt m (StartIndex (?ts ! i))" if "i < length ?ts" for i
  proof -
    have "StartIndex (?ts ! i) \<in> set (map StartIndex ?ts)" using that by simp
    then show ?thesis unfolding starts by simp
  qed
  have valid: "StartIndex (?ts ! i) < EndIndex (?ts ! i) \<and> EndIndex (?ts ! i) \<le> length m
      \<and> (\<forall>k. StartIndex (?ts ! i) < k \<and> k < EndIndex (?ts ! i) \<longrightarrow> \<not> isUserAt m k)"
    if "i < length ?ts" for i
    using inv that unfolding turnsUpTo_def by (meson nth_mem)
  have part1: "\<forall>i < length ?ts.
      StartIndex (?ts ! i) < EndIndex (?ts ! i) \<and> EndIndex (?ts ! i) \<le> length m
      \<and> Role (m ! StartIndex (?ts ! i)) = ''user''
      \<and> (\<forall>k. StartIndex (?ts ! i) < k \<and> k < EndIndex (?ts ! i) \<longrightarrow> Role (m ! k) \<noteq> ''user'')"
    using valid user_start by (simp add: isUserAt_def)
  have lt: "StartIndex (?ts ! i) < StartIndex (?ts ! j)" if "i < j" "j < length ?ts" for i j
    using starts_sorted[of m] that by (simp add: sorted_wrt_iff_nth_less)
  have sep: "EndIndex (?ts ! i) \<le> StartIndex (?ts ! j)" if "i < j" "j < length ?ts" for i j
  proof (rule ccontr)
    assume "\<not> EndIndex (?ts ! i) \<le> StartIndex (?ts ! j)"
    then have "StartIndex (?ts ! i) < StartIndex (?ts ! j) \<and> StartIndex (?ts ! j) < EndIndex (?ts ! i)"
      using lt[OF that] by simp
    moreover have "i < length ?ts" using that by simp
    ultimately have "\<not> isUserAt m (StartIndex (?ts ! j))" using valid by blast
    then show False using user_start[OF that(2)] by simp
  qed
  have part2: "\<forall>i j. i < j \<and> j < length ?ts \<longrightarrow>
        {StartIndex (?ts ! i)..<EndIndex (?ts ! i)} \<inter> {StartIndex (?ts ! j)..<EndIndex (?ts ! j)} = {}"
    using sep by fastforce
  have dist: "distinct (map StartIndex ?ts)" unfolding starts by simp
  have part3: "\<forall>k < length m. Role (m ! k) = ''user'' \<longrightarrow>
        (\<exists>!i. i < length ?ts \<and> StartIndex (?ts ! i) = k)"
  proof (intro allI impI)
    fix k assume k: "k < length m" and u: "Role (m ! k) = ''user''"
    then have "k \<in> set (map StartIndex ?ts)" unfolding starts by (simp add: isUserAt_def)
    then obtain i where i: "i < length ?ts" "StartIndex (?ts ! i) = k"
      by (auto simp: in_set_conv_nth)
    show "\<exists>!i. i < length ?ts \<and> StartIndex (?ts ! i) = k"
    proof (rule ex1I[of _ i])
      show "i < length ?ts \<and> StartIndex (?ts ! i) = k" using i by simp
    next
      fix j assume j: "j < length ?ts \<and> StartIndex (?ts ! j) = k"
      then have "map StartIndex ?ts ! j = map StartIndex ?ts ! i" using i by simp
      then show "j = i" using dist i j nth_eq_iff_index_eq[of "map StartIndex ?ts" j i] by simp
    qed
  qed
  show ?thesis using part1 part2 part3 by blast
qed

theorem PartitionTurns_ranges_witness:
  "PartitionTurns exMsgs =
     [\<lparr>StartIndex = 0, EndIndex = 4, Text = ''run ls running file1.txt Here are the files.''\<rparr>,
      \<lparr>StartIndex = 4, EndIndex = 6, Text = ''what about the weather I do not have weather.''\<rparr>]
   \<and> Role (exMsgs ! 0) = ''user'' \<and> Role (exMsgs ! 4) = ''user''
   \<and> Role (exMsgs ! 1) \<noteq> ''user'' \<and> Role (exMsgs ! 2) \<noteq> ''user'' \<and> Role (exMsgs ! 3) \<noteq> ''user''
   \<and> Role (exMsgs ! 5) \<noteq> ''user''
   \<and> {0..<4::nat} \<inter> {4..<6} = {}
   \<and> (\<exists>!i. i < length (PartitionTurns exMsgs) \<and> StartIndex (PartitionTurns exMsgs ! i) = 4)"
proof -
  have ev: "PartitionTurns exMsgs =
     [\<lparr>StartIndex = 0, EndIndex = 4, Text = ''run ls running file1.txt Here are the files.''\<rparr>,
      \<lparr>StartIndex = 4, EndIndex = 6, Text = ''what about the weather I do not have weather.''\<rparr>]"
    by code_simp
  have len: "length exMsgs = 6" by (simp add: exMsgs_def)
  have r4: "Role (exMsgs ! 4) = ''user''" by (simp add: exMsgs_def)
  have r0: "Role (exMsgs ! 0) = ''user''" by (simp add: exMsgs_def)
  note all = PartitionTurns_ranges[of exMsgs]
  from all have cover: "\<forall>k < length exMsgs. Role (exMsgs ! k) = ''user'' \<longrightarrow>
        (\<exists>!i. i < length (PartitionTurns exMsgs) \<and> StartIndex (PartitionTurns exMsgs ! i) = k)"
    by (elim conjE)
  then have c4: "\<exists>!i. i < length (PartitionTurns exMsgs) \<and> StartIndex (PartitionTurns exMsgs ! i) = 4"
    using len r4 by simp
  from all have "\<forall>i j. i < j \<and> j < length (PartitionTurns exMsgs) \<longrightarrow>
        {StartIndex (PartitionTurns exMsgs ! i)..<EndIndex (PartitionTurns exMsgs ! i)}
        \<inter> {StartIndex (PartitionTurns exMsgs ! j)..<EndIndex (PartitionTurns exMsgs ! j)} = {}"
    by (elim conjE)
  then have "{StartIndex (PartitionTurns exMsgs ! 0)..<EndIndex (PartitionTurns exMsgs ! 0)}
        \<inter> {StartIndex (PartitionTurns exMsgs ! 1)..<EndIndex (PartitionTurns exMsgs ! 1)} = {}"
    by (simp add: ev)
  then have dj: "{0..<4::nat} \<inter> {4..<6} = {}" by (simp add: ev)
  from all have "\<forall>i < length (PartitionTurns exMsgs).
      StartIndex (PartitionTurns exMsgs ! i) < EndIndex (PartitionTurns exMsgs ! i)
      \<and> EndIndex (PartitionTurns exMsgs ! i) \<le> length exMsgs
      \<and> Role (exMsgs ! StartIndex (PartitionTurns exMsgs ! i)) = ''user''
      \<and> (\<forall>k. StartIndex (PartitionTurns exMsgs ! i) < k \<and> k < EndIndex (PartitionTurns exMsgs ! i)
             \<longrightarrow> Role (exMsgs ! k) \<noteq> ''user'')"
    by (elim conjE)
  then have each: "\<And>i k. i < length (PartitionTurns exMsgs) \<Longrightarrow>
      StartIndex (PartitionTurns exMsgs ! i) < k \<Longrightarrow> k < EndIndex (PartitionTurns exMsgs ! i)
      \<Longrightarrow> Role (exMsgs ! k) \<noteq> ''user''"
    by blast
  have t0: "\<forall>k. 0 < k \<and> k < 4 \<longrightarrow> Role (exMsgs ! k) \<noteq> ''user''"
    using each[of 0] by (simp add: ev)
  have t1: "\<forall>k. 4 < k \<and> k < 6 \<longrightarrow> Role (exMsgs ! k) \<noteq> ''user''"
    using each[of 1] by (simp add: ev)
  have "Role (exMsgs ! 1) \<noteq> ''user''" "Role (exMsgs ! 2) \<noteq> ''user''" "Role (exMsgs ! 3) \<noteq> ''user''"
    "Role (exMsgs ! 5) \<noteq> ''user''"
    using t0 t1 by simp_all
  then show ?thesis using ev r0 r4 dj c4 by simp
qed

section \<open>Selection of turns (claim C1)\<close>

text \<open>
  C1 fails on the code. With a limit of 1 and a fallback of 1, the query \<open>aa\<close> ranks the
  first of three turns on top (score 11; the others score 0), and the last turn is the
  fallback: the selection the doc comment describes is the first and the last turn.
  \<open>SelectRelevantTurns\<close> returns all three. The test \<open>count >= limit && selectedIdx[s.idx]\<close>
  never holds for an index met for the first time, so every index is selected
  (lemma \<open>SelectRelevantTurns_returns_all\<close>).
\<close>

theorem SelectRelevantTurns_ignores_limit:
  "SelectRelevantTurns exTurns ''aa'' 1 1 = exTurns
   \<and> map s_score (scoreTurns exTurns ''aa'' (session_tokenizeForMatch ''aa'')) = [11, 0, 0]
   \<and> spec_SelectRelevantTurns exTurns ''aa'' 1 1 = [exTurns ! 0, exTurns ! 2]"
  by code_simp
section \<open>Encryption round trip (claim C6)\<close>

text \<open>
  C6. For a key of 32 bytes, every plaintext \<open>x\<close> and every context id, \<open>encryptE2EBytes\<close>
  returns a ciphertext of the length of \<open>x\<close>, and \<open>decryptE2EBytes\<close> with the same key and
  context id returns \<open>x\<close> from it. This holds for every HMAC and block function of the
  right output sizes.
\<close>

theorem e2e_roundtrip:
  assumes "libraryShapes hmacSHA256 aesEncrypt" and "length key = 32"
  shows "\<exists>c. encryptE2EBytes hmacSHA256 aesEncrypt key x ctx = Inr c
           \<and> length c = length x
           \<and> decryptE2EBytes hmacSHA256 aesEncrypt key c ctx = Inr x"
proof -
  define stream where "stream = \<lparr>ctr_block = aesEncrypt key, ctr_iv = e2eNonce hmacSHA256 key ctx\<rparr>"
  have blk: "\<forall>b. length (ctr_block stream b) = aesBlockSize"
    using assms(1) by (simp add: stream_def libraryShapes_def)
  have iv: "length (e2eNonce hmacSHA256 key ctx) = aesBlockSize"
    using assms(1) by (simp add: e2eNonce_def libraryShapes_def e2eNonceLen_def aesBlockSize_def)
  have enc: "encryptE2EBytes hmacSHA256 aesEncrypt key p ctx = Inr (XORKeyStream stream p)" for p
    using assms(2) iv
    by (simp add: encryptE2EBytes_def e2eKeyLen_def NewCipher_def NewCTR_def stream_def)
  have dec: "decryptE2EBytes hmacSHA256 aesEncrypt key c ctx = Inr (XORKeyStream stream c)" for c
    using assms(2) iv
    by (simp add: decryptE2EBytes_def e2eKeyLen_def NewCipher_def NewCTR_def stream_def)
  show ?thesis
    using enc dec length_XORKeyStream[OF blk] XORKeyStream_twice[OF blk] by simp
qed

theorem e2e_roundtrip_witness:
  "libraryShapes toyHmac toyBlock \<and> length toyKey = 32
   \<and> (\<exists>c. encryptE2EBytes toyHmac toyBlock toyKey (bytesOf ''hello'') ''m1'' = Inr c
          \<and> length c = length (bytesOf ''hello'')
          \<and> decryptE2EBytes toyHmac toyBlock toyKey c ''m1'' = Inr (bytesOf ''hello''))"
proof -
  have k: "length toyKey = 32" by (simp add: toyKey_def)
  show ?thesis
    using e2e_roundtrip[OF toy_shapes k, of "bytesOf ''hello''" "''m1''"] toy_shapes k by simp
qed

section \<open>Dispatch runs every handler (claim C7)\<close>



section \<open>Statuses of the results (claim C10)\<close>

text \<open>
  C10 (as amended). Every result of \<open>Dispatch\<close> has a non-empty status. When the handler
  returned an empty status, the status is \<open>error\<close> if the handler set an error and \<open>ok\<close>
  otherwise; a status the handler set is returned as it is; a panic gives \<open>error\<close>. Every
  result of status \<open>error\<close> carries an error, made from the message (\<open>hook error: <message>\<close>)
  when the handler set none.
\<close>

theorem Dispatch_result_status:
  assumes "Dispatch d elapsedOf ev data = Returned (results, written)" and "i < length results"
  shows "Status (results ! i) \<noteq> []
    \<and> (Status (results ! i) = ''error'' \<longrightarrow> Err (results ! i) \<noteq> None)
    \<and> (\<forall>r. Handle (handlers d ev ! i) ev data = Returned r \<longrightarrow>
          Status (results ! i)
            = (if Status r = [] then (if Err r \<noteq> None then ''error'' else ''ok'') else Status r)
          \<and> Err (results ! i)
            = (if Status r = ''error'' \<and> Err r = None then Some (''hook error: '' @ Message r)
               else Err r))
    \<and> (\<forall>v. Handle (handlers d ev ! i) ev data = Panicked v \<longrightarrow> Status (results ! i) = ''error'')"
proof -
  let ?hs = "handlers d ev"
  from assms(1) have loop: "dispatchLoop (audit d) elapsedOf ev data ?hs 0 [] [] = Returned (results, written)"
    by (simp add: Dispatch_def)
  from dispatchLoop_results[OF loop] have len: "length results = length ?hs"
    and each: "\<forall>i < length ?hs. runHandler (elapsedOf i) (?hs ! i) ev data = Returned (results ! i)"
    by simp_all
  have run: "runHandler (elapsedOf i) (?hs ! i) ev data = Returned (results ! i)"
    using each assms(2) len by simp
  have c1: "Status (results ! i) \<noteq> []" using run by (rule returned_status_nonempty)
  have c2: "Status (results ! i) = ''error'' \<longrightarrow> Err (results ! i) \<noteq> None"
    using returned_error_has_Err[OF run] by blast
  have c3: "\<forall>r. Handle (?hs ! i) ev data = Returned r \<longrightarrow>
          Status (results ! i)
            = (if Status r = [] then (if Err r \<noteq> None then ''error'' else ''ok'') else Status r)
          \<and> Err (results ! i)
            = (if Status r = ''error'' \<and> Err r = None then Some (''hook error: '' @ Message r)
               else Err r)"
    using runHandler_Returned[OF run] by (simp add: resultOf_returned)
  have c4: "\<forall>v. Handle (?hs ! i) ev data = Panicked v \<longrightarrow> Status (results ! i) = ''error''"
    using returned_after_panic[OF run] by blast
  show ?thesis by (intro conjI c1 c2 c3 c4)
qed

theorem Dispatch_result_status_witness:
  "Dispatch threeHandlers (\<lambda>k. 7) ''before_turn'' turnContext =
     Returned ([\<lparr>Status = ''ok'', Message = ''ok'', Metadata = [], Err = None, DurationMs = 7\<rparr>,
                \<lparr>Status = ''error'', Message = ''hook panic recovered'', Metadata = [],
                  Err = Some ''panic in hook panic: boom'', DurationMs = 7\<rparr>,
                \<lparr>Status = ''error'', Message = ''failed'', Metadata = [],
                  Err = Some ''disk full'', DurationMs = 7\<rparr>], [])
   \<and> (2::nat) < 3
   \<and> Handle (handlers threeHandlers ''before_turn'' ! 2) ''before_turn'' turnContext
       = Returned \<lparr>Status = [], Message = ''failed'', Metadata = [], Err = Some ''disk full'',
                   DurationMs = 0\<rparr>
   \<and> ''error'' \<noteq> ([] :: string) \<and> Some ''disk full'' \<noteq> (None :: string option)"
proof -
  let ?rs = "[\<lparr>Status = ''ok'', Message = ''ok'', Metadata = [], Err = None, DurationMs = 7\<rparr>,
                \<lparr>Status = ''error'', Message = ''hook panic recovered'', Metadata = [],
                  Err = Some ''panic in hook panic: boom'', DurationMs = 7\<rparr>,
                \<lparr>Status = ''error'', Message = ''failed'', Metadata = [],
                  Err = Some ''disk full'', DurationMs = 7\<rparr>]"
  have run: "Dispatch threeHandlers (\<lambda>k. 7) ''before_turn'' turnContext = Returned (?rs, [])"
    by (simp add: Dispatch_def three_registered threeHandlers_audit okHandler_def panicHandler_def
          bareHandler_def runHandler_def deferredRecover_def handlerBody_def zeroResult_def
          StatusError_def StatusOK_def Let_def)
  have h: "Handle (handlers threeHandlers ''before_turn'' ! 2) ''before_turn'' turnContext
       = Returned \<lparr>Status = [], Message = ''failed'', Metadata = [], Err = Some ''disk full'',
                   DurationMs = 0\<rparr>"
    by (simp add: three_registered bareHandler_def)
  have "Status (?rs ! 2) \<noteq> [] \<and> (Status (?rs ! 2) = ''error'' \<longrightarrow> Err (?rs ! 2) \<noteq> None)"
    using Dispatch_result_status[OF run, of 2] by simp
  then show ?thesis using run h by simp
qed

text \<open>
  C10 (as stated) fails: a handler that returns the status \<open>skipped\<close> gets it back from
  \<open>Dispatch\<close>, in the result and in the audit entry.
\<close>

theorem Dispatch_keeps_other_status_counterexample:
  "Dispatch oneSkipping (\<lambda>k. 7) ''before_turn'' turnContext =
     Returned ([\<lparr>Status = ''skipped'', Message = ''nothing to do'', Metadata = [], Err = None,
                  DurationMs = 7\<rparr>],
       [\<lparr>EntryTurnID = ''t2'', EntryEvent = ''before_turn'', EntryHandler = ''skip'',
         EntryStatus = ''skipped'', EntryMessage = ''nothing to do'', EntryError = [],
         EntryDurationMs = 7, EntrySessionKey = ''s1'', EntryChannel = [], EntryChatID = [],
         EntryMetadata = []\<rparr>])"
  by (simp add: Dispatch_def oneSkipping_def Register_def NewDispatcher_def skippingHandler_def
        memorySink_def runHandler_def deferredRecover_def handlerBody_def auditEntryOf_def
        turnContext_def StatusError_def StatusOK_def Let_def)
section \<open>Rejections of the endpoint (claim C9)\<close>




end
